theory Spec2Isabelle
  imports Complex_Main
begin

section \<open>DataRun: scoring and ranking of parks\<close>

text \<open>
  Shallow embedding of \<^verbatim>\<open>mediator.py\<close> and of \<^verbatim>\<open>consultas_parques.py\<close>.
  Python floats are modelled as real numbers (no rounding error, no NaN, no infinity),
  Python integers as \<^typ>\<open>int\<close>. The three HTTP services and the park collection are
  parameters: a service is a function from the request's arguments to either an
  exception or the decoded body, and the collection is the list of its documents in
  the order of the cursor. The calls of \<^verbatim>\<open>print\<close> are left out. Every function
  that can raise returns a sum, \<open>Inl\<close> being the exception.
\<close>

subsection \<open>Exceptions\<close>

datatype error =
    RequestException  \<comment> \<open>\<^verbatim>\<open>requests.get\<close> failed (connection, timeout)\<close>
  | HTTPError         \<comment> \<open>\<^verbatim>\<open>raise_for_status\<close> on a 4xx/5xx answer\<close>
  | IndexError        \<comment> \<open>\<^verbatim>\<open>[0]\<close> on an empty list\<close>
  | ValueError        \<comment> \<open>math domain error of \<^verbatim>\<open>math.sqrt\<close> / \<^verbatim>\<open>math.asin\<close>\<close>

subsection \<open>The weather score (\<^verbatim>\<open>get_weather_score_for_date\<close>)\<close>

text \<open>
  The body of the service's answer, after \<^verbatim>\<open>r.json()\<close>: the two hourly series
  \<^verbatim>\<open>data["hourly"]["temperature_2m"]\<close> and \<^verbatim>\<open>data["hourly"]["precipitation"]\<close>.
\<close>

type_synonym weather_provider = "real \<Rightarrow> real \<Rightarrow> int \<Rightarrow> error + (real list \<times> real list)"

text \<open>
  The loop \<^verbatim>\<open>for t, p in zip(temps, precs)\<close> with its accumulator \<^verbatim>\<open>score\<close>;
  \<^verbatim>\<open>continue\<close> is the recursive call with the score unchanged.
\<close>

fun hourly_loop :: "int \<Rightarrow> (real \<times> real) list \<Rightarrow> int" where
  "hourly_loop score [] = score"
| "hourly_loop score ((t, p) # rest) =
     (if p > 2 then hourly_loop score rest
      else if 10 \<le> t \<and> t \<le> 24 then hourly_loop (score + 2) rest
      else if (5 \<le> t \<and> t < 10) \<or> (24 < t \<and> t \<le> 28) then hourly_loop (score + 1) rest
      else hourly_loop score rest)"

definition get_weather_score_for_date ::
  "weather_provider \<Rightarrow> real \<Rightarrow> real \<Rightarrow> int \<Rightarrow> error + int" where
  "get_weather_score_for_date wp lat lon date =
     (case wp lat lon date of
        Inl e \<Rightarrow> Inl e
      | Inr (temps, precs) \<Rightarrow> Inr (hourly_loop 0 (zip temps precs)))"

text \<open>
  The score as the specification words it: the points of one hour, summed over the hours.
\<close>

definition hour_points :: "real \<Rightarrow> real \<Rightarrow> int" where
  "hour_points t p =
     (if p > 2 then 0
      else if 10 \<le> t \<and> t \<le> 24 then 2
      else if (5 \<le> t \<and> t < 10) \<or> (24 < t \<and> t \<le> 28) then 1
      else 0)"

definition weather_score_spec :: "real list \<Rightarrow> real list \<Rightarrow> int" where
  "weather_score_spec temps precs = (\<Sum>i<length temps. hour_points (temps ! i) (precs ! i))"

subsection \<open>Elevation and route look-ups (\<^verbatim>\<open>get_elevation\<close>, \<^verbatim>\<open>get_best_route\<close>)\<close>

text \<open>
  The elevation service answers with the list \<^verbatim>\<open>data["results"]\<close>, here the list of the
  results' \<^verbatim>\<open>"elevation"\<close> values; a missing or empty list is \<open>[]\<close>. The directions
  service answers with \<^verbatim>\<open>data["routes"]\<close>; a route is the list of its legs, a leg the
  number of seconds \<^verbatim>\<open>leg["duration"]["value"]\<close>.
\<close>

type_synonym elevation_provider = "real \<Rightarrow> real \<Rightarrow> error + real list"

type_synonym directions_provider = "real \<Rightarrow> real \<Rightarrow> real \<Rightarrow> real \<Rightarrow> error + int list list"

definition get_elevation :: "elevation_provider \<Rightarrow> real \<Rightarrow> real \<Rightarrow> error + (real option \<times> string)" where
  "get_elevation ep lat lon =
     (case ep lat lon of
        Inl e \<Rightarrow> Inl e
      | Inr results \<Rightarrow>
          (case results of
             [] \<Rightarrow> Inr (None, ''desconocido'')
           | elevation # _ \<Rightarrow>
               Inr (Some elevation,
                    if elevation < 650 then ''llano''
                    else if elevation < 750 then ''moderado''
                    else ''elevado'')))"

definition get_best_route ::
  "directions_provider \<Rightarrow> real \<Rightarrow> real \<Rightarrow> real \<Rightarrow> real \<Rightarrow> error + real option" where
  "get_best_route dp user_lat user_lon park_lat park_lon =
     (case dp user_lat user_lon park_lat park_lon of
        Inl e \<Rightarrow> Inl e
      | Inr routes \<Rightarrow>
          (case routes of
             [] \<Rightarrow> Inr None
           | legs # _ \<Rightarrow>
               (case legs of
                  [] \<Rightarrow> Inl IndexError
                | duration_sec # _ \<Rightarrow> Inr (Some (real_of_int duration_sec / 60)))))"

subsection \<open>Distance (\<^verbatim>\<open>haversine_km\<close>)\<close>

definition radians :: "real \<Rightarrow> real" where
  "radians x = x * pi / 180"

definition math_sqrt :: "real \<Rightarrow> error + real" where
  "math_sqrt x = (if x < 0 then Inl ValueError else Inr (sqrt x))"

definition math_asin :: "real \<Rightarrow> error + real" where
  "math_asin x = (if x < - 1 \<or> 1 < x then Inl ValueError else Inr (arcsin x))"

text \<open>The radicand \<^verbatim>\<open>a\<close> of \<^verbatim>\<open>haversine_km\<close> (the function up to its \<^verbatim>\<open>return\<close>).\<close>

definition haversine_a :: "real \<Rightarrow> real \<Rightarrow> real \<Rightarrow> real \<Rightarrow> real" where
  "haversine_a lat1 lon1 lat2 lon2 =
     (let d_lat = radians (lat2 - lat1);
          d_lon = radians (lon2 - lon1)
      in (sin (d_lat / 2))\<^sup>2 +
         cos (radians lat1) * cos (radians lat2) * (sin (d_lon / 2))\<^sup>2)"

text \<open>The last line, \<^verbatim>\<open>return 2 * R * math.asin(math.sqrt(a))\<close>, as a function of \<^verbatim>\<open>a\<close>.\<close>

definition haversine_return :: "real \<Rightarrow> error + real" where
  "haversine_return a =
     (let R = 6371
      in case math_sqrt a of
           Inl e \<Rightarrow> Inl e
         | Inr s \<Rightarrow> (case math_asin s of Inl e \<Rightarrow> Inl e | Inr v \<Rightarrow> Inr (2 * R * v)))"

definition haversine_km :: "real \<Rightarrow> real \<Rightarrow> real \<Rightarrow> real \<Rightarrow> error + real" where
  "haversine_km lat1 lon1 lat2 lon2 = haversine_return (haversine_a lat1 lon1 lat2 lon2)"

text \<open>
  Over the real numbers the radicand lies in [0, 1] for all coordinates (lemma
  \<open>haversine_a_range\<close> below), so that \<open>haversine_km\<close> as modelled here never takes
  the two exceptions of its last line. The code computes in double precision, where the
  radicand of two nearly antipodal points can come out a few units in the last place
  above 1; this rounding is not part of the model, and what the last line does with such
  a radicand is stated for \<open>haversine_return\<close>.
\<close>

subsection \<open>Candidates (\<^verbatim>\<open>best_park_for_day\<close>)\<close>

text \<open>
  A document of the park collection: \<^verbatim>\<open>park["name"]\<close>, \<^verbatim>\<open>park.get("address")\<close> and
  \<^verbatim>\<open>park["location"]["coordinates"]\<close>, which is the pair (longitude, latitude).
\<close>

record park =
  park_name :: string
  park_address :: "string option"
  coordinates :: "real \<times> real"

text \<open>The dictionary \<^verbatim>\<open>candidato\<close>; the day is the ordinal of the target date.\<close>

record candidato =
  day :: int
  user_lat :: real
  user_lon :: real
  name :: string
  address :: "string option"
  location_lat :: real
  location_lon :: real
  distance_km :: real
  route_minutes :: "real option"
  elevation :: "real option"
  elevation_category :: string
  weather_score :: int
  final_score :: real

text \<open>
  Python's \<^verbatim>\<open>round(x, ndigits)\<close>: the nearest multiple of \<open>10\<^sup>-\<^sup>n\<close>, a tie going to
  the even one.
\<close>

definition round_half_even :: "real \<Rightarrow> int" where
  "round_half_even x =
     (let f = \<lfloor>x\<rfloor>; d = x - of_int f
      in if d < 1 / 2 then f
         else if 1 / 2 < d then f + 1
         else if even f then f else f + 1)"

definition py_round :: "real \<Rightarrow> nat \<Rightarrow> real" where
  "py_round x ndigits = of_int (round_half_even (x * 10 ^ ndigits)) / 10 ^ ndigits"

text \<open>Truthiness of \<^verbatim>\<open>route_min\<close>: \<^verbatim>\<open>None\<close> and \<^verbatim>\<open>0.0\<close> are false.\<close>

definition truthy :: "real option \<Rightarrow> bool" where
  "truthy route_min = (case route_min of None \<Rightarrow> False | Some r \<Rightarrow> r \<noteq> 0)"

text \<open>The combined score: \<^verbatim>\<open>score = weather_score; score -= dist; if route_min: score -= route_min / 10\<close>.\<close>

definition combined_score :: "int \<Rightarrow> real \<Rightarrow> real option \<Rightarrow> real" where
  "combined_score ws dist_km route_min =
     (let score = real_of_int ws;
          score = score - dist_km
      in case route_min of
           None \<Rightarrow> score
         | Some r \<Rightarrow> if truthy route_min then score - r / 10 else score)"

text \<open>The score and the dictionary built for a park that passed the distance filter.\<close>

definition make_candidato ::
  "int \<Rightarrow> real \<Rightarrow> real \<Rightarrow> park \<Rightarrow> real \<Rightarrow> real \<Rightarrow> real \<Rightarrow> real option \<Rightarrow> real option \<Rightarrow> string
     \<Rightarrow> int \<Rightarrow> candidato" where
  "make_candidato target_date ulat ulon park lat lon dist_km route_min elev elev_cat ws =
     (let score = combined_score ws dist_km route_min
      in \<lparr> day = target_date,
           user_lat = ulat,
           user_lon = ulon,
           name = park_name park,
           address = park_address park,
           location_lat = lat,
           location_lon = lon,
           distance_km = py_round dist_km 2,
           route_minutes = (if \<not> truthy route_min then None
                            else map_option (\<lambda>r. py_round r 1) route_min),
           elevation = elev,
           elevation_category = elev_cat,
           weather_score = ws,
           final_score = py_round score 2 \<rparr>)"

text \<open>
  One iteration of the loop over the parks up to \<^verbatim>\<open>candidatos.append\<close>: \<open>Inr None\<close> is
  the \<^verbatim>\<open>continue\<close> of the distance filter, \<open>Inl\<close> an exception leaving the function.
\<close>

definition visit_park ::
  "elevation_provider \<Rightarrow> directions_provider \<Rightarrow> real \<Rightarrow> real \<Rightarrow> int \<Rightarrow> int \<Rightarrow> real \<Rightarrow> park
     \<Rightarrow> error + candidato option" where
  "visit_park ep dp ulat ulon target_date ws max_distance_km park =
     (case coordinates park of (lon, lat) \<Rightarrow>
        (case haversine_km ulat ulon lat lon of
           Inl e \<Rightarrow> Inl e
         | Inr dist_km \<Rightarrow>
             if dist_km > max_distance_km then Inr None
             else
               (case get_elevation ep lat lon of
                  Inl e \<Rightarrow> Inl e
                | Inr (elev, elev_cat) \<Rightarrow>
                    (case get_best_route dp ulat ulon lat lon of
                       Inl e \<Rightarrow> Inl e
                     | Inr route_min \<Rightarrow>
                         Inr (Some (make_candidato target_date ulat ulon park lat lon dist_km
                                      route_min elev elev_cat ws))))))"

text \<open>\<^verbatim>\<open>if mejor is None or candidato["final_score"] > mejor["final_score"]: mejor = candidato\<close>\<close>

definition update_mejor :: "candidato option \<Rightarrow> candidato \<Rightarrow> candidato option" where
  "update_mejor mejor c =
     (case mejor of
        None \<Rightarrow> Some c
      | Some m \<Rightarrow> if final_score c > final_score m then Some c else Some m)"

text \<open>The loop \<^verbatim>\<open>for i, park in enumerate(parks, start=1)\<close> with its state \<^verbatim>\<open>mejor, candidatos\<close>.\<close>

fun park_loop ::
  "elevation_provider \<Rightarrow> directions_provider \<Rightarrow> real \<Rightarrow> real \<Rightarrow> int \<Rightarrow> int \<Rightarrow> real \<Rightarrow> park list
     \<Rightarrow> candidato option \<Rightarrow> candidato list \<Rightarrow> error + (candidato option \<times> candidato list)" where
  "park_loop ep dp ulat ulon target_date ws max_distance_km [] mejor candidatos =
     Inr (mejor, candidatos)"
| "park_loop ep dp ulat ulon target_date ws max_distance_km (park # parks) mejor candidatos =
     (case visit_park ep dp ulat ulon target_date ws max_distance_km park of
        Inl e \<Rightarrow> Inl e
      | Inr None \<Rightarrow> park_loop ep dp ulat ulon target_date ws max_distance_km parks mejor candidatos
      | Inr (Some c) \<Rightarrow>
          park_loop ep dp ulat ulon target_date ws max_distance_km parks
            (update_mejor mejor c) (candidatos @ [c]))"

text \<open>
  \<^verbatim>\<open>best_park_for_day\<close>; \<open>parks\<close> is the content of the collection in the order of the
  cursor, \<open>today\<close> the ordinal of \<^verbatim>\<open>datetime.today().date()\<close>.
\<close>

definition best_park_for_day ::
  "weather_provider \<Rightarrow> elevation_provider \<Rightarrow> directions_provider \<Rightarrow> park list \<Rightarrow> int
     \<Rightarrow> real \<Rightarrow> real \<Rightarrow> int \<Rightarrow> real \<Rightarrow> error + (candidato option \<times> candidato list)" where
  "best_park_for_day wp ep dp parks today ulat ulon day_offset max_distance_km =
     (let target_date = today + day_offset
      in case get_weather_score_for_date wp ulat ulon target_date of
           Inl e \<Rightarrow> Inl e
         | Inr ws \<Rightarrow> park_loop ep dp ulat ulon target_date ws max_distance_km parks None [])"

subsection \<open>Notions used to state the properties\<close>

text \<open>A park passes the distance filter of the loop: its distance is not above the bound.\<close>

definition within_range :: "real \<Rightarrow> real \<Rightarrow> real \<Rightarrow> park \<Rightarrow> bool" where
  "within_range ulat ulon max_distance_km park =
     (case coordinates park of (lon, lat) \<Rightarrow>
        (case haversine_km ulat ulon lat lon of
           Inl e \<Rightarrow> False
         | Inr dist_km \<Rightarrow> \<not> dist_km > max_distance_km))"

text \<open>
  The value of the variable \<^verbatim>\<open>score\<close> for a park, before \<^verbatim>\<open>round(score, 2)\<close>: the
  distance and the route look-up of the loop body, then the combined score.
\<close>

definition unrounded_score :: "directions_provider \<Rightarrow> real \<Rightarrow> real \<Rightarrow> int \<Rightarrow> park \<Rightarrow> error + real" where
  "unrounded_score dp ulat ulon ws park =
     (case coordinates park of (lon, lat) \<Rightarrow>
        (case haversine_km ulat ulon lat lon of
           Inl e \<Rightarrow> Inl e
         | Inr dist_km \<Rightarrow>
             (case get_best_route dp ulat ulon lat lon of
                Inl e \<Rightarrow> Inl e
              | Inr route_min \<Rightarrow> Inr (combined_score ws dist_km route_min))))"

text \<open>
  A candidate of a list is its first maximum: no candidate has a greater final score,
  and every candidate before it has a smaller one.
\<close>

definition first_maximum :: "candidato list \<Rightarrow> nat \<Rightarrow> bool" where
  "first_maximum cs i \<longleftrightarrow>
     i < length cs
     \<and> (\<forall>j<length cs. final_score (cs ! j) \<le> final_score (cs ! i))
     \<and> (\<forall>j<i. final_score (cs ! j) < final_score (cs ! i))"

text \<open>
  A directions service changed only where it reports a first leg of 0 seconds: there it
  reports no route at all.
\<close>

definition zero_as_no_route :: "directions_provider \<Rightarrow> directions_provider" where
  "zero_as_no_route dp =
     (\<lambda>ulat ulon plat plon.
        case dp ulat ulon plat plon of
          Inl e \<Rightarrow> Inl e
        | Inr routes \<Rightarrow>
            (case routes of
               [] \<Rightarrow> Inr []
             | legs # _ \<Rightarrow>
                 (case legs of
                    [] \<Rightarrow> Inr routes
                  | duration_sec # _ \<Rightarrow> if duration_sec = 0 then Inr [] else Inr routes)))"

subsection \<open>Example data\<close>

text \<open>Five dry hours at 15 degrees: the weather score 10.\<close>

definition mild_day :: weather_provider where
  "mild_day = (\<lambda>lat lon date. Inr ([15, 15, 15, 15, 15], [0, 0, 0, 0, 0]))"

definition no_elevation :: elevation_provider where
  "no_elevation = (\<lambda>lat lon. Inr [])"

definition elevation_down :: elevation_provider where
  "elevation_down = (\<lambda>lat lon. Inl HTTPError)"

definition no_route :: directions_provider where
  "no_route = (\<lambda>ulat ulon plat plon. Inr [])"

text \<open>A walk of 2 seconds to longitude 180, of 1 second to any other place.\<close>

definition short_walks :: directions_provider where
  "short_walks = (\<lambda>ulat ulon plat plon. if plon = 180 then Inr [[2]] else Inr [[1]])"

definition route_down :: directions_provider where
  "route_down = (\<lambda>ulat ulon plat plon. Inl RequestException)"

text \<open>An elevation service that answers at longitude 0 only.\<close>

definition elevation_at_greenwich :: elevation_provider where
  "elevation_at_greenwich = (\<lambda>lat lon. if lon = 0 then Inr [667] else Inl HTTPError)"

definition park_at :: "string \<Rightarrow> real \<Rightarrow> real \<Rightarrow> park" where
  "park_at n lon lat = \<lparr> park_name = n, park_address = None, coordinates = (lon, lat) \<rparr>"

subsection \<open>Lemmas on the weather score\<close>

lemma hourly_loop_acc: "hourly_loop score hs = score + (\<Sum>(t, p)\<leftarrow>hs. hour_points t p)"
  by (induction score hs rule: hourly_loop.induct) (simp_all add: hour_points_def)

lemma hour_points_bounds: "0 \<le> hour_points t p \<and> hour_points t p \<le> 2"
  by (simp add: hour_points_def)

lemma sum_list_zip_nth:
  assumes "length temps = length precs"
  shows "(\<Sum>(t, p)\<leftarrow>zip temps precs. hour_points t p) = weather_score_spec temps precs"
proof -
  have "(\<Sum>(t, p)\<leftarrow>zip temps precs. hour_points t p)
        = (\<Sum>i<length (zip temps precs). case zip temps precs ! i of (t, p) \<Rightarrow> hour_points t p)"
    by (simp add: sum_list_sum_nth atLeast0LessThan)
  also have "\<dots> = (\<Sum>i<length temps. hour_points (temps ! i) (precs ! i))"
    using assms by simp
  finally show ?thesis by (simp add: weather_score_spec_def)
qed

lemma weather_score_spec_bounds:
  "0 \<le> weather_score_spec temps precs \<and> weather_score_spec temps precs \<le> 2 * int (length temps)"
proof
  show "0 \<le> weather_score_spec temps precs"
    unfolding weather_score_spec_def by (rule sum_nonneg) (simp add: hour_points_bounds)
  have "(\<Sum>i<length temps. hour_points (temps ! i) (precs ! i)) \<le> (\<Sum>i<length temps. 2)"
    by (rule sum_mono) (simp add: hour_points_bounds)
  then show "weather_score_spec temps precs \<le> 2 * int (length temps)"
    by (simp add: weather_score_spec_def)
qed

lemma zip_take_lengths:
  "zip (take (length precs) temps) (take (length temps) precs) = zip temps precs"
  by (induction temps precs rule: list_induct2') simp_all

subsection \<open>Lemmas on the distance\<close>

lemma sin_half_squared: "(sin (x / 2))\<^sup>2 = (1 - cos x) / 2" for x :: real
  using cos_double_sin [of "x / 2"] by simp

lemma haversine_a_range: "0 \<le> haversine_a lat1 lon1 lat2 lon2 \<and> haversine_a lat1 lon1 lat2 lon2 \<le> 1"
proof -
  define A where "A = cos (radians lat2 - radians lat1)"
  define B where "B = cos (radians lat1 + radians lat2)"
  define s where "s = (sin (radians (lon2 - lon1) / 2))\<^sup>2"
  have rad: "radians (lat2 - lat1) = radians lat2 - radians lat1"
    by (simp add: radians_def algebra_simps diff_divide_distrib)
  have s: "0 \<le> s" "s \<le> 1"
    unfolding s_def by (simp_all add: abs_square_le_1)
  have A: "- 1 \<le> A" "A \<le> 1" and B: "- 1 \<le> B" "B \<le> 1"
    unfolding A_def B_def by simp_all
  have cc: "cos (radians lat1) * cos (radians lat2) = (A + B) / 2"
    unfolding A_def B_def by (simp add: cos_diff cos_add)
  have a: "haversine_a lat1 lon1 lat2 lon2 = (1 - A) / 2 + (A + B) / 2 * s"
    unfolding haversine_a_def Let_def rad sin_half_squared cc
    by (simp add: A_def s_def sin_half_squared)
  have as: "- (1 - s) \<le> A * (1 - s)" "A * (1 - s) \<le> 1 - s"
    using A s mult_right_mono [of "- 1" A "1 - s"] mult_right_mono [of A 1 "1 - s"] by simp_all
  have bs: "- s \<le> B * s" "B * s \<le> s"
    using B s mult_right_mono [of "- 1" B s] mult_right_mono [of B 1 s] by simp_all
  have "haversine_a lat1 lon1 lat2 lon2 = 1 / 2 - A * (1 - s) / 2 + B * s / 2"
    unfolding a by (simp add: field_simps)
  with as bs show ?thesis by simp
qed

lemma haversine_km_value:
  "haversine_km lat1 lon1 lat2 lon2
   = Inr (2 * 6371 * arcsin (sqrt (haversine_a lat1 lon1 lat2 lon2)))"
proof -
  let ?a = "haversine_a lat1 lon1 lat2 lon2"
  have "0 \<le> ?a" "?a \<le> 1"
    using haversine_a_range [of lat1 lon1 lat2 lon2] by simp_all
  then have "\<not> sqrt ?a < - 1" "\<not> 1 < sqrt ?a"
    using real_sqrt_ge_zero [of ?a] by (linarith, simp)
  with \<open>0 \<le> ?a\<close> show ?thesis
    by (simp add: haversine_km_def haversine_return_def math_sqrt_def math_asin_def)
qed

lemma haversine_a_sym: "haversine_a lat1 lon1 lat2 lon2 = haversine_a lat2 lon2 lat1 lon1"
proof -
  have "radians (lat2 - lat1) / 2 = - (radians (lat1 - lat2) / 2)"
    and "radians (lon2 - lon1) / 2 = - (radians (lon1 - lon2) / 2)"
    by (simp_all add: radians_def field_simps)
  then show ?thesis
    unfolding haversine_a_def Let_def by (simp only: sin_minus power2_minus mult.commute)
qed

lemma haversine_a_same: "haversine_a lat lon lat lon = 0"
  by (simp add: haversine_a_def radians_def)

lemma haversine_km_same: "haversine_km lat lon lat lon = Inr 0"
  by (simp add: haversine_km_value haversine_a_same)

lemma haversine_km_full_turn: "haversine_km 0 180 0 (- 180) = Inr 0"
  by (simp add: haversine_km_value haversine_a_def radians_def)

lemma haversine_km_antipode: "haversine_km 0 0 0 180 = Inr (6371 * pi)"
  by (simp add: haversine_km_value haversine_a_def radians_def)

lemma haversine_km_antipode_west: "haversine_km 0 0 0 (- 180) = Inr (6371 * pi)"
  by (simp add: haversine_km_value haversine_a_def radians_def)

subsection \<open>Lemmas on the loop over the parks\<close>

lemma visit_park_unfold:
  "visit_park ep dp ulat ulon td ws maxd p =
     (if \<not> within_range ulat ulon maxd p then Inr None
      else
        (case get_elevation ep (snd (coordinates p)) (fst (coordinates p)) of
           Inl e \<Rightarrow> Inl e
         | Inr (elev, elev_cat) \<Rightarrow>
             (case get_best_route dp ulat ulon (snd (coordinates p)) (fst (coordinates p)) of
                Inl e \<Rightarrow> Inl e
              | Inr route_min \<Rightarrow>
                  Inr (Some (make_candidato td ulat ulon p (snd (coordinates p))
                    (fst (coordinates p))
                    (2 * 6371 * arcsin (sqrt (haversine_a ulat ulon (snd (coordinates p))
                        (fst (coordinates p)))))
                    route_min elev elev_cat ws)))))"
  by (cases "coordinates p")
    (simp add: visit_park_def within_range_def haversine_km_value split: sum.splits prod.splits)

lemma visit_park_skip_iff:
  "visit_park ep dp ulat ulon td ws maxd p = Inr None \<longleftrightarrow> \<not> within_range ulat ulon maxd p"
  by (simp add: visit_park_unfold split: sum.splits prod.splits)

lemma park_loop_Inr:
  assumes "park_loop ep dp ulat ulon td ws maxd parks mejor cands = Inr (m', cs')"
  shows "\<exists>new. cs' = cands @ new \<and> m' = foldl update_mejor mejor new
           \<and> list_all2 (\<lambda>p c. visit_park ep dp ulat ulon td ws maxd p = Inr (Some c))
                (filter (within_range ulat ulon maxd) parks) new"
  using assms
proof (induction parks arbitrary: mejor cands)
  case Nil
  then show ?case by simp
next
  case (Cons p parks)
  show ?case
  proof (cases "visit_park ep dp ulat ulon td ws maxd p")
    case (Inl e)
    with Cons.prems show ?thesis by simp
  next
    case (Inr r)
    show ?thesis
    proof (cases r)
      case None
      with Inr have skip: "\<not> within_range ulat ulon maxd p"
        by (simp add: visit_park_skip_iff)
      from Cons.prems Inr None
      have "park_loop ep dp ulat ulon td ws maxd parks mejor cands = Inr (m', cs')"
        by simp
      from Cons.IH [OF this] skip show ?thesis by simp
    next
      case (Some c)
      with Inr have keep: "within_range ulat ulon maxd p"
        using visit_park_skip_iff [of ep dp ulat ulon td ws maxd p] by auto
      from Cons.prems Inr Some
      have "park_loop ep dp ulat ulon td ws maxd parks (update_mejor mejor c) (cands @ [c])
              = Inr (m', cs')"
        by simp
      from Cons.IH [OF this] obtain new where new:
        "cs' = (cands @ [c]) @ new" "m' = foldl update_mejor (update_mejor mejor c) new"
        "list_all2 (\<lambda>p c. visit_park ep dp ulat ulon td ws maxd p = Inr (Some c))
           (filter (within_range ulat ulon maxd) parks) new"
        by blast
      show ?thesis
      proof (intro exI conjI)
        show "cs' = cands @ (c # new)" using new(1) by simp
        show "m' = foldl update_mejor mejor (c # new)" using new(2) by simp
        show "list_all2 (\<lambda>p c. visit_park ep dp ulat ulon td ws maxd p = Inr (Some c))
                (filter (within_range ulat ulon maxd) (p # parks)) (c # new)"
          using new(3) keep Inr Some by simp
      qed
    qed
  qed
qed

lemma park_loop_isl:
  "isl (park_loop ep dp ulat ulon td ws maxd parks mejor cands)
   \<longleftrightarrow> (\<exists>p\<in>set parks. isl (visit_park ep dp ulat ulon td ws maxd p))"
  by (induction parks arbitrary: mejor cands) (auto split: sum.splits option.splits)

lemma park_loop_cong:
  assumes "\<forall>p\<in>set parks. visit_park ep' dp' ulat ulon td ws maxd p
                            = visit_park ep dp ulat ulon td ws maxd p"
  shows "park_loop ep' dp' ulat ulon td ws maxd parks mejor cands
         = park_loop ep dp ulat ulon td ws maxd parks mejor cands"
  using assms by (induction parks arbitrary: mejor cands) (simp_all split: sum.splits option.splits)

lemma update_mejor_Some:
  "update_mejor (Some m) c = (if final_score c > final_score m then Some c else Some m)"
  by (simp add: update_mejor_def)

lemma foldl_update_mejor_first_maximum:
  assumes "cs \<noteq> []"
  shows "\<exists>i. first_maximum cs i \<and> foldl update_mejor None cs = Some (cs ! i)"
  using assms
proof (induction cs rule: rev_induct)
  case Nil
  then show ?case by simp
next
  case (snoc c cs)
  show ?case
  proof (cases "cs = []")
    case True
    then have "first_maximum (cs @ [c]) 0 \<and> foldl update_mejor None (cs @ [c]) = Some ((cs @ [c]) ! 0)"
      by (simp add: first_maximum_def update_mejor_def)
    then show ?thesis by blast
  next
    case False
    from snoc.IH [OF this] obtain i where i: "first_maximum cs i"
      and best: "foldl update_mejor None cs = Some (cs ! i)"
      by blast
    from i have il: "i < length cs"
      and ub: "\<And>j. j < length cs \<Longrightarrow> final_score (cs ! j) \<le> final_score (cs ! i)"
      and lt: "\<And>j. j < i \<Longrightarrow> final_score (cs ! j) < final_score (cs ! i)"
      by (simp_all add: first_maximum_def)
    show ?thesis
    proof (cases "final_score c > final_score (cs ! i)")
      case True
      have "first_maximum (cs @ [c]) (length cs)"
        unfolding first_maximum_def
      proof (intro conjI allI impI)
        show "length cs < length (cs @ [c])" by simp
      next
        fix j assume "j < length (cs @ [c])"
        then show "final_score ((cs @ [c]) ! j) \<le> final_score ((cs @ [c]) ! length cs)"
          using ub [of j] True by (cases "j < length cs") (auto simp: nth_append)
      next
        fix j assume "j < length cs"
        then show "final_score ((cs @ [c]) ! j) < final_score ((cs @ [c]) ! length cs)"
          using ub [of j] True by (simp add: nth_append)
      qed
      moreover have "foldl update_mejor None (cs @ [c]) = Some ((cs @ [c]) ! length cs)"
        using best True by (simp add: update_mejor_Some)
      ultimately show ?thesis by blast
    next
      case False
      have "first_maximum (cs @ [c]) i"
        unfolding first_maximum_def
      proof (intro conjI allI impI)
        show "i < length (cs @ [c])" using il by simp
      next
        fix j assume "j < length (cs @ [c])"
        then show "final_score ((cs @ [c]) ! j) \<le> final_score ((cs @ [c]) ! i)"
          using ub [of j] False il by (cases "j < length cs") (auto simp: nth_append)
      next
        fix j assume "j < i"
        then show "final_score ((cs @ [c]) ! j) < final_score ((cs @ [c]) ! i)"
          using lt [of j] il by (simp add: nth_append)
      qed
      moreover have "foldl update_mejor None (cs @ [c]) = Some ((cs @ [c]) ! i)"
        using best False il by (simp add: update_mejor_Some nth_append)
      ultimately show ?thesis by blast
    qed
  qed
qed

lemma best_park_for_day_Inr:
  assumes "best_park_for_day wp ep dp parks today ulat ulon day_offset maxd = Inr (mejor, cands)"
  shows "\<exists>ws. get_weather_score_for_date wp ulat ulon (today + day_offset) = Inr ws
           \<and> mejor = foldl update_mejor None cands
           \<and> list_all2 (\<lambda>p c. visit_park ep dp ulat ulon (today + day_offset) ws maxd p = Inr (Some c))
                (filter (within_range ulat ulon maxd) parks) cands"
proof (cases "get_weather_score_for_date wp ulat ulon (today + day_offset)")
  case (Inl e)
  with assms show ?thesis by (simp add: best_park_for_day_def)
next
  case (Inr ws)
  with assms have "park_loop ep dp ulat ulon (today + day_offset) ws maxd parks None [] = Inr (mejor, cands)"
    by (simp add: best_park_for_day_def)
  from park_loop_Inr [OF this] Inr show ?thesis by simp
qed

subsection \<open>Lemmas on sample runs and on routes of no duration\<close>

lemma py_round_10: "py_round 10 2 = 10"
  by (simp add: py_round_def round_half_even_def)

lemma mild_day_score: "get_weather_score_for_date mild_day ulat ulon d = Inr 10"
  by (simp add: get_weather_score_for_date_def mild_day_def)

lemma tie_run:
  "best_park_for_day mild_day no_elevation no_route
     [park_at ''A'' 0 0, park_at ''B'' 0 0] 0 0 0 0 15
   = Inr (Some (make_candidato 0 0 0 (park_at ''A'' 0 0) 0 0 0 None None ''desconocido'' 10),
          [make_candidato 0 0 0 (park_at ''A'' 0 0) 0 0 0 None None ''desconocido'' 10,
           make_candidato 0 0 0 (park_at ''B'' 0 0) 0 0 0 None None ''desconocido'' 10])"
  by (simp add: best_park_for_day_def mild_day_score visit_park_def park_at_def
        haversine_km_same get_elevation_def get_best_route_def no_elevation_def no_route_def
        update_mejor_def make_candidato_def)

lemma get_best_route_zero_as_no_route:
  "get_best_route (zero_as_no_route dp) ulat ulon plat plon
   = (if get_best_route dp ulat ulon plat plon = Inr (Some 0) then Inr None
      else get_best_route dp ulat ulon plat plon)"
  by (simp add: get_best_route_def zero_as_no_route_def split: sum.splits list.splits)

lemma make_candidato_zero_route:
  "make_candidato td ulat ulon park lat lon dist_km (Some 0) elev elev_cat ws
   = make_candidato td ulat ulon park lat lon dist_km None elev elev_cat ws"
  by (simp add: make_candidato_def combined_score_def truthy_def Let_def)

lemma visit_park_zero_as_no_route:
  "visit_park ep (zero_as_no_route dp) ulat ulon td ws maxd p
   = visit_park ep dp ulat ulon td ws maxd p"
  by (simp add: visit_park_unfold get_best_route_zero_as_no_route make_candidato_zero_route
        split: sum.splits prod.splits)

subsection \<open>Lemmas on rounding and on the candidate of a park\<close>

lemma round_half_even_error: "\<bar>of_int (round_half_even y) - y\<bar> \<le> 1 / 2"
proof -
  have "of_int \<lfloor>y\<rfloor> \<le> y" "y < of_int \<lfloor>y\<rfloor> + 1"
    by linarith+
  then show ?thesis
    by (auto simp: round_half_even_def Let_def)
qed

lemma py_round_2_error: "\<bar>py_round x 2 - x\<bar> \<le> 1 / 200"
proof -
  define r where "r = real_of_int (round_half_even (x * 100))"
  have "py_round x 2 = r / 100"
    by (simp add: py_round_def r_def)
  moreover have "\<bar>r - x * 100\<bar> \<le> 1 / 2"
    unfolding r_def by (rule round_half_even_error)
  ultimately show ?thesis
    by linarith
qed

lemma visit_park_Some:
  assumes "visit_park ep dp ulat ulon td ws maxd p = Inr (Some c)"
  shows "within_range ulat ulon maxd p"
    and "name c = park_name p"
    and "location_lat c = snd (coordinates p)"
    and "location_lon c = fst (coordinates p)"
    and "\<exists>s. unrounded_score dp ulat ulon ws p = Inr s \<and> final_score c = py_round s 2"
proof -
  show wr: "within_range ulat ulon maxd p"
    using assms visit_park_skip_iff [of ep dp ulat ulon td ws maxd p]
    by (auto simp: visit_park_unfold split: if_splits)
  from assms wr obtain elev elev_cat route_min where
    r: "get_best_route dp ulat ulon (snd (coordinates p)) (fst (coordinates p)) = Inr route_min"
    and c: "c = make_candidato td ulat ulon p (snd (coordinates p)) (fst (coordinates p))
              (2 * 6371 * arcsin (sqrt (haversine_a ulat ulon (snd (coordinates p))
                 (fst (coordinates p))))) route_min elev elev_cat ws"
    by (auto simp: visit_park_unfold split: sum.splits prod.splits)
  show "name c = park_name p" "location_lat c = snd (coordinates p)"
    "location_lon c = fst (coordinates p)"
    by (simp_all add: c make_candidato_def Let_def)
  have "unrounded_score dp ulat ulon ws p
        = Inr (combined_score ws (2 * 6371 * arcsin (sqrt (haversine_a ulat ulon
            (snd (coordinates p)) (fst (coordinates p))))) route_min)"
    using r by (cases "coordinates p") (simp add: unrounded_score_def haversine_km_value)
  then show "\<exists>s. unrounded_score dp ulat ulon ws p = Inr s \<and> final_score c = py_round s 2"
    by (simp add: c make_candidato_def Let_def)
qed

lemma within_range_distance:
  "within_range ulat ulon maxd p
   \<longleftrightarrow> (\<exists>d. haversine_km ulat ulon (snd (coordinates p)) (fst (coordinates p)) = Inr d \<and> d \<le> maxd)"
  by (cases "coordinates p") (auto simp: within_range_def haversine_km_value)

lemma foldl_update_mejor_Nil_iff: "foldl update_mejor None cs = None \<longleftrightarrow> cs = []"
  using foldl_update_mejor_first_maximum [of cs] by (cases "cs = []") auto

lemma py_round_near_10: "py_round (2999 / 300) 2 = 10" "py_round (5999 / 600) 2 = 10"
  by (simp_all add: py_round_def round_half_even_def Let_def)

lemma py_round_small: "py_round (1 / 30) 1 = 0" "py_round (1 / 60) 1 = 0"
  by (simp_all add: py_round_def round_half_even_def Let_def)

lemma rounded_tie_run:
  "best_park_for_day mild_day no_elevation short_walks
     [park_at ''A'' 180 0, park_at ''B'' (- 180) 0] 0 0 180 0 15
   = Inr (Some (make_candidato 0 0 180 (park_at ''A'' 180 0) 0 180 0 (Some (1 / 30)) None
                  ''desconocido'' 10),
          [make_candidato 0 0 180 (park_at ''A'' 180 0) 0 180 0 (Some (1 / 30)) None
             ''desconocido'' 10,
           make_candidato 0 0 180 (park_at ''B'' (- 180) 0) 0 (- 180) 0 (Some (1 / 60)) None
             ''desconocido'' 10])"
  by (simp add: best_park_for_day_def mild_day_score visit_park_def park_at_def
        haversine_km_same haversine_km_full_turn get_elevation_def get_best_route_def
        no_elevation_def short_walks_def update_mejor_def make_candidato_def
        combined_score_def truthy_def py_round_near_10 py_round_small Let_def)

subsection \<open>Lemmas on the services and on the distance filter\<close>

lemma list_all2_map_eq:
  assumes "list_all2 R xs ys" and "\<And>x y. R x y \<Longrightarrow> f y = g x"
  shows "map f ys = map g xs"
  using assms by (induction rule: list_all2_induct) simp_all

lemma visit_park_providers_cong:
  assumes "within_range ulat ulon maxd p \<Longrightarrow>
             ep' (snd (coordinates p)) (fst (coordinates p))
               = ep (snd (coordinates p)) (fst (coordinates p))
             \<and> dp' ulat ulon (snd (coordinates p)) (fst (coordinates p))
               = dp ulat ulon (snd (coordinates p)) (fst (coordinates p))"
  shows "visit_park ep' dp' ulat ulon td ws maxd p = visit_park ep dp ulat ulon td ws maxd p"
proof (cases "within_range ulat ulon maxd p")
  case True
  with assms have
    "get_elevation ep' (snd (coordinates p)) (fst (coordinates p))
       = get_elevation ep (snd (coordinates p)) (fst (coordinates p))"
    "get_best_route dp' ulat ulon (snd (coordinates p)) (fst (coordinates p))
       = get_best_route dp ulat ulon (snd (coordinates p)) (fst (coordinates p))"
    by (simp_all add: get_elevation_def get_best_route_def)
  then show ?thesis
    by (simp only: visit_park_unfold)
next
  case False
  then show ?thesis
    by (simp add: visit_park_unfold)
qed

lemma visit_park_isl:
  "isl (visit_park ep dp ulat ulon td ws maxd p)
   \<longleftrightarrow> within_range ulat ulon maxd p
       \<and> (isl (get_elevation ep (snd (coordinates p)) (fst (coordinates p)))
          \<or> isl (get_best_route dp ulat ulon (snd (coordinates p)) (fst (coordinates p))))"
  by (simp add: visit_park_unfold split: sum.splits prod.splits)

lemma antipode_is_far: "(15::real) < 6371 * pi"
  using pi_ge_two by linarith

lemma one_near_filter:
  "filter (within_range 0 0 15) [park_at ''A'' 0 0, park_at ''B'' 180 0, park_at ''C'' (- 180) 0]
   = [park_at ''A'' 0 0]"
  using antipode_is_far
  by (simp add: within_range_def park_at_def haversine_km_same haversine_km_antipode
        haversine_km_antipode_west)

lemma one_near_run:
  "best_park_for_day mild_day elevation_at_greenwich no_route
     [park_at ''A'' 0 0, park_at ''B'' 180 0, park_at ''C'' (- 180) 0] 0 0 0 0 15
   = Inr (Some (make_candidato 0 0 0 (park_at ''A'' 0 0) 0 0 0 None (Some 667) ''moderado'' 10),
          [make_candidato 0 0 0 (park_at ''A'' 0 0) 0 0 0 None (Some 667) ''moderado'' 10])"
  using antipode_is_far
  by (simp add: best_park_for_day_def mild_day_score visit_park_def park_at_def
        haversine_km_same haversine_km_antipode haversine_km_antipode_west
        get_elevation_def get_best_route_def elevation_at_greenwich_def no_route_def
        update_mejor_def)

lemma park_at_user_within_range: "within_range 0 0 15 (park_at ''A'' 0 0)"
  by (simp add: within_range_def park_at_def haversine_km_same)

section \<open>The claims\<close>

text \<open>
  C1: in every ranking run the returned best candidate is the one the running-best
  update yields over the candidates in catalog order (the first candidate becomes best,
  a later one replaces it only when its final score is strictly greater); it is the
  candidate of maximal final score, and on a tie the earliest one. No candidate, no best.
\<close>

theorem best_is_first_maximum:
  assumes "best_park_for_day wp ep dp parks today ulat ulon day_offset maxd = Inr (mejor, candidatos)"
  shows "mejor = foldl update_mejor None candidatos
         \<and> (candidatos = [] \<longrightarrow> mejor = None)
         \<and> (candidatos \<noteq> [] \<longrightarrow>
              (\<exists>i. first_maximum candidatos i \<and> mejor = Some (candidatos ! i)))"
proof -
  from best_park_for_day_Inr [OF assms]
  have m: "mejor = foldl update_mejor None candidatos" by blast
  then show ?thesis
    using foldl_update_mejor_first_maximum [of candidatos] by auto
qed

theorem best_is_first_maximum_witness:
  "best_park_for_day mild_day no_elevation no_route
     [park_at ''A'' 0 0, park_at ''B'' 0 0] 0 0 0 0 15
   = Inr (Some (make_candidato 0 0 0 (park_at ''A'' 0 0) 0 0 0 None None ''desconocido'' 10),
          [make_candidato 0 0 0 (park_at ''A'' 0 0) 0 0 0 None None ''desconocido'' 10,
           make_candidato 0 0 0 (park_at ''B'' 0 0) 0 0 0 None None ''desconocido'' 10])
   \<and> final_score (make_candidato 0 0 0 (park_at ''A'' 0 0) 0 0 0 None None ''desconocido'' 10) = 10
   \<and> final_score (make_candidato 0 0 0 (park_at ''B'' 0 0) 0 0 0 None None ''desconocido'' 10) = 10
   \<and> first_maximum
        [make_candidato 0 0 0 (park_at ''A'' 0 0) 0 0 0 None None ''desconocido'' 10,
         make_candidato 0 0 0 (park_at ''B'' 0 0) 0 0 0 None None ''desconocido'' 10] 0"
proof -
  let ?a = "make_candidato 0 0 0 (park_at ''A'' 0 0) 0 0 0 None None ''desconocido'' 10"
  let ?b = "make_candidato 0 0 0 (park_at ''B'' 0 0) 0 0 0 None None ''desconocido'' 10"
  have ne: "?b \<noteq> ?a"
    by (simp add: make_candidato_def park_at_def)
  from best_is_first_maximum [OF tie_run]
  obtain i where i: "first_maximum [?a, ?b] i" and best: "Some ?a = Some ([?a, ?b] ! i)"
    by auto
  from i have "i < 2" by (simp add: first_maximum_def)
  with best ne have "i = 0" by (cases i) auto
  with i have "first_maximum [?a, ?b] 0" by simp
  moreover have "final_score ?a = 10" "final_score ?b = 10"
    by (simp_all add: make_candidato_def combined_score_def py_round_10 Let_def)
  ultimately show ?thesis using tie_run by simp
qed

text \<open>
  C2, as the specification states it: the comparison for the best candidate uses the
  unrounded final score, so that the returned best has the maximal unrounded score. The
  code compares the rounded values: of two parks with the scores 9.9967 and 9.9983, in
  this order, both final scores are 10.0 and the first park is returned as the best.
\<close>

theorem rounded_comparison_counterexample:
  "best_park_for_day mild_day no_elevation short_walks
     [park_at ''A'' 180 0, park_at ''B'' (- 180) 0] 0 0 180 0 15
   = Inr (Some (make_candidato 0 0 180 (park_at ''A'' 180 0) 0 180 0 (Some (1 / 30)) None
                  ''desconocido'' 10),
          [make_candidato 0 0 180 (park_at ''A'' 180 0) 0 180 0 (Some (1 / 30)) None
             ''desconocido'' 10,
           make_candidato 0 0 180 (park_at ''B'' (- 180) 0) 0 (- 180) 0 (Some (1 / 60)) None
             ''desconocido'' 10])
   \<and> unrounded_score short_walks 0 180 10 (park_at ''A'' 180 0) = Inr (10 - 1 / 300)
   \<and> unrounded_score short_walks 0 180 10 (park_at ''B'' (- 180) 0) = Inr (10 - 1 / 600)
   \<and> (10 - 1 / 300 :: real) < 10 - 1 / 600"
proof -
  have "unrounded_score short_walks 0 180 10 (park_at ''A'' 180 0) = Inr (10 - 1 / 300)"
    by (simp add: unrounded_score_def park_at_def haversine_km_same get_best_route_def
          short_walks_def combined_score_def truthy_def Let_def)
  moreover have "unrounded_score short_walks 0 180 10 (park_at ''B'' (- 180) 0) = Inr (10 - 1 / 600)"
    by (simp add: unrounded_score_def park_at_def haversine_km_full_turn get_best_route_def
          short_walks_def combined_score_def truthy_def Let_def)
  ultimately show ?thesis
    using rounded_tie_run by simp
qed

text \<open>
  C2, amended: the final score of a candidate is its score rounded to 2 decimals; the
  rounded value is the one kept in the candidate and compared. The returned best is a
  park within range whose rounded score is maximal among the parks within range, and
  its unrounded score is below no other's by more than 0.01.
\<close>

theorem best_is_maximal_after_rounding:
  assumes "best_park_for_day wp ep dp parks today ulat ulon day_offset maxd = Inr (Some b, candidatos)"
  shows "\<exists>ws p s.
           get_weather_score_for_date wp ulat ulon (today + day_offset) = Inr ws
           \<and> p \<in> set parks \<and> within_range ulat ulon maxd p
           \<and> unrounded_score dp ulat ulon ws p = Inr s
           \<and> name b = park_name p
           \<and> final_score b = py_round s 2
           \<and> (\<forall>q\<in>set parks. \<forall>t.
                 within_range ulat ulon maxd q \<and> unrounded_score dp ulat ulon ws q = Inr t
                 \<longrightarrow> py_round t 2 \<le> py_round s 2 \<and> t \<le> s + 1 / 100)"
proof -
  let ?inr = "filter (within_range ulat ulon maxd) parks"
  from best_park_for_day_Inr [OF assms] obtain ws where
    ws: "get_weather_score_for_date wp ulat ulon (today + day_offset) = Inr ws"
    and best: "Some b = foldl update_mejor None candidatos"
    and rel: "list_all2 (\<lambda>p c. visit_park ep dp ulat ulon (today + day_offset) ws maxd p = Inr (Some c))
                ?inr candidatos"
    by blast
  from best have "candidatos \<noteq> []"
    using foldl_update_mejor_Nil_iff [of candidatos] by auto
  from foldl_update_mejor_first_maximum [OF this] best obtain i where
    i: "first_maximum candidatos i" and b: "b = candidatos ! i"
    by auto
  from rel have len: "length ?inr = length candidatos"
    by (rule list_all2_lengthD)
  from i have il: "i < length candidatos"
    and ub: "\<And>j. j < length candidatos \<Longrightarrow> final_score (candidatos ! j) \<le> final_score b"
    by (simp_all add: first_maximum_def b)
  define p where "p = ?inr ! i"
  have vp: "visit_park ep dp ulat ulon (today + day_offset) ws maxd p = Inr (Some b)"
    using list_all2_nthD2 [OF rel il] by (simp add: p_def b)
  have "p \<in> set ?inr"
    unfolding p_def by (rule nth_mem) (simp add: il len)
  then have pin: "p \<in> set parks" by simp
  from visit_park_Some [OF vp] obtain s where
    wr: "within_range ulat ulon maxd p" and nm: "name b = park_name p"
    and s: "unrounded_score dp ulat ulon ws p = Inr s" and fs: "final_score b = py_round s 2"
    by blast
  have others: "py_round t 2 \<le> py_round s 2 \<and> t \<le> s + 1 / 100"
    if q: "q \<in> set parks" and qr: "within_range ulat ulon maxd q"
      and t: "unrounded_score dp ulat ulon ws q = Inr t" for q t
  proof -
    from q qr have "q \<in> set ?inr" by simp
    then obtain j where j: "j < length ?inr" and qj: "?inr ! j = q"
      unfolding in_set_conv_nth by blast
    from rel j have "visit_park ep dp ulat ulon (today + day_offset) ws maxd (?inr ! j)
                       = Inr (Some (candidatos ! j))"
      by (rule list_all2_nthD)
    from visit_park_Some(5) [OF this] t qj
    have fj: "final_score (candidatos ! j) = py_round t 2" by simp
    from ub [of j] j len have le: "py_round t 2 \<le> py_round s 2"
      by (simp add: fj fs)
    from py_round_2_error [of t] py_round_2_error [of s] le
    have "t \<le> s + 1 / 100" by linarith
    with le show ?thesis by simp
  qed
  show ?thesis
    using ws pin wr s nm fs others by blast
qed

theorem best_is_maximal_after_rounding_witness:
  "best_park_for_day mild_day no_elevation short_walks
     [park_at ''A'' 180 0, park_at ''B'' (- 180) 0] 0 0 180 0 15
   = Inr (Some (make_candidato 0 0 180 (park_at ''A'' 180 0) 0 180 0 (Some (1 / 30)) None
                  ''desconocido'' 10),
          [make_candidato 0 0 180 (park_at ''A'' 180 0) 0 180 0 (Some (1 / 30)) None
             ''desconocido'' 10,
           make_candidato 0 0 180 (park_at ''B'' (- 180) 0) 0 (- 180) 0 (Some (1 / 60)) None
             ''desconocido'' 10])
   \<and> (\<exists>ws p s.
           get_weather_score_for_date mild_day 0 180 (0 + 0) = Inr ws
           \<and> p \<in> set [park_at ''A'' 180 0, park_at ''B'' (- 180) 0] \<and> within_range 0 180 15 p
           \<and> unrounded_score short_walks 0 180 ws p = Inr s
           \<and> name (make_candidato 0 0 180 (park_at ''A'' 180 0) 0 180 0 (Some (1 / 30)) None
                  ''desconocido'' 10) = park_name p
           \<and> final_score (make_candidato 0 0 180 (park_at ''A'' 180 0) 0 180 0 (Some (1 / 30)) None
                  ''desconocido'' 10) = py_round s 2
           \<and> (\<forall>q\<in>set [park_at ''A'' 180 0, park_at ''B'' (- 180) 0]. \<forall>t.
                 within_range 0 180 15 q \<and> unrounded_score short_walks 0 180 ws q = Inr t
                 \<longrightarrow> py_round t 2 \<le> py_round s 2 \<and> t \<le> s + 1 / 100))"
  using rounded_tie_run best_is_maximal_after_rounding [OF rounded_tie_run]
  by (rule conjI)

text \<open>
  C3, as the specification states it: the weather scorer fails with a DataShapeError
  whenever the two hourly series have unequal length. The code does not: with one
  temperature and no precipitation value it returns the score 0.
\<close>

theorem unequal_series_counterexample:
  "length [15 :: real] \<noteq> length ([] :: real list)
   \<and> get_weather_score_for_date (\<lambda>_ _ _. Inr ([15], [])) 40 (- 3) 0 = Inr 0"
  by (simp add: get_weather_score_for_date_def)

text \<open>
  C3, amended: whatever the lengths of the two series, the weather scorer raises no error
  on them; \<^verbatim>\<open>zip\<close> pairs the hours up to the shorter series, and the score is the
  hourly sum over these pairs, the surplus entries of the longer series being ignored.
\<close>

theorem weather_score_truncates:
  assumes "wp lat lon date = Inr (temps, precs)"
  shows "get_weather_score_for_date wp lat lon date
         = Inr (weather_score_spec (take (length precs) temps) (take (length temps) precs))"
proof -
  have "length (take (length precs) temps) = length (take (length temps) precs)"
    by (simp add: min.commute)
  from sum_list_zip_nth [OF this] show ?thesis
    using assms
    by (simp add: get_weather_score_for_date_def hourly_loop_acc zip_take_lengths)
qed

theorem weather_score_truncates_witness:
  "get_weather_score_for_date (\<lambda>_ _ _. Inr ([15, 7], [0])) 40 (- 3) 0
   = Inr (weather_score_spec (take (length [0::real]) [15, 7]) (take (length [15, 7 :: real]) [0]))
   \<and> weather_score_spec (take (length [0::real]) [15, 7]) (take (length [15, 7 :: real]) [0]) = 2"
  using weather_score_truncates [of "\<lambda>_ _ _. Inr ([15, 7], [0])" 40 "- 3" 0 "[15, 7]" "[0]"]
  by (simp add: weather_score_spec_def hour_points_def)

text \<open>
  C4: for hourly series of equal length the weather score is the sum over the hours of
  0 when the precipitation exceeds 2 mm, else 2 for a temperature in [10, 24], 1 for a
  temperature in [5, 10) or (24, 28], and 0 otherwise; it lies between 0 and twice the
  number of hours.
\<close>

theorem weather_score_is_hourly_sum:
  assumes "length temps = length precs"
    and "wp lat lon date = Inr (temps, precs)"
  shows "get_weather_score_for_date wp lat lon date = Inr (weather_score_spec temps precs)
         \<and> 0 \<le> weather_score_spec temps precs
         \<and> weather_score_spec temps precs \<le> 2 * int (length temps)"
proof -
  have "get_weather_score_for_date wp lat lon date = Inr (weather_score_spec temps precs)"
    using assms by (simp add: get_weather_score_for_date_def hourly_loop_acc sum_list_zip_nth)
  with weather_score_spec_bounds [of temps precs] show ?thesis by simp
qed

theorem weather_score_is_hourly_sum_witness:
  "length [15, 7, 30, 15 :: real] = length [0, 0, 0, 3 :: real]
   \<and> get_weather_score_for_date (\<lambda>_ _ _. Inr ([15, 7, 30, 15], [0, 0, 0, 3])) 40 (- 3) 0 = Inr 3
   \<and> weather_score_spec [15, 7, 30, 15] [0, 0, 0, 3] = 3"
  using weather_score_is_hourly_sum [of "[15, 7, 30, 15]" "[0, 0, 0, 3]"
          "\<lambda>_ _ _. Inr ([15, 7, 30, 15], [0, 0, 0, 3])" 40 "- 3" 0]
  by (simp add: weather_score_spec_def hour_points_def lessThan_nat_numeral lessThan_Suc)

text \<open>
  C5: the score of a candidate is the weather score minus the distance minus a tenth of
  the route minutes when there are any, and the candidate's final score is this value
  rounded to 2 decimals; for the weather score 20, 5 km and 30 minutes both are 12.
\<close>

theorem final_score_formula:
  "combined_score ws dist_km route_min
     = real_of_int ws - dist_km - (case route_min of None \<Rightarrow> 0 | Some r \<Rightarrow> r / 10)
   \<and> final_score (make_candidato td ulat ulon park lat lon dist_km route_min elev elev_cat ws)
     = py_round (real_of_int ws - dist_km - (case route_min of None \<Rightarrow> 0 | Some r \<Rightarrow> r / 10)) 2
   \<and> combined_score 20 5 (Some 30) = 12
   \<and> final_score (make_candidato td ulat ulon park lat lon 5 (Some 30) elev elev_cat 20) = 12"
proof -
  have f: "combined_score ws dist_km route_min
     = real_of_int ws - dist_km - (case route_min of None \<Rightarrow> 0 | Some r \<Rightarrow> r / 10)"
    for ws dist_km route_min
    by (simp add: combined_score_def truthy_def Let_def split: option.splits)
  have r: "py_round 12 2 = 12"
    by (simp add: py_round_def round_half_even_def)
  show ?thesis
    by (simp add: f make_candidato_def r Let_def)
qed

text \<open>
  C6: a park farther from the user than the bound is discarded before any elevation,
  route or scoring work and never becomes a candidate. In a run that returns, every
  candidate is within the bound, the candidates are the parks within the bound in catalog
  order, and with exactly one such park there is exactly one candidate, which is the
  best; the answers of the elevation and directions services for the other parks are
  never looked at, so that any two pairs of services that agree on the parks within the
  bound give the same result.
\<close>

theorem far_parks_are_discarded:
  assumes "best_park_for_day wp ep dp parks today ulat ulon day_offset maxd = Inr (mejor, candidatos)"
  shows "(\<forall>c\<in>set candidatos.
            \<exists>d. haversine_km ulat ulon (location_lat c) (location_lon c) = Inr d \<and> d \<le> maxd)
         \<and> map (\<lambda>c. (name c, location_lon c, location_lat c)) candidatos
           = map (\<lambda>p. (park_name p, coordinates p)) (filter (within_range ulat ulon maxd) parks)
         \<and> length candidatos = length (filter (within_range ulat ulon maxd) parks)
         \<and> (length (filter (within_range ulat ulon maxd) parks) = 1
              \<longrightarrow> (\<exists>c. candidatos = [c] \<and> mejor = Some c))
         \<and> ((\<forall>p\<in>set parks. within_range ulat ulon maxd p \<longrightarrow>
                 ep' (snd (coordinates p)) (fst (coordinates p))
                   = ep (snd (coordinates p)) (fst (coordinates p))
                 \<and> dp' ulat ulon (snd (coordinates p)) (fst (coordinates p))
                   = dp ulat ulon (snd (coordinates p)) (fst (coordinates p)))
              \<longrightarrow> best_park_for_day wp ep' dp' parks today ulat ulon day_offset maxd
                    = Inr (mejor, candidatos))"
proof -
  let ?inr = "filter (within_range ulat ulon maxd) parks"
  from best_park_for_day_Inr [OF assms] obtain ws where
    ws: "get_weather_score_for_date wp ulat ulon (today + day_offset) = Inr ws"
    and best: "mejor = foldl update_mejor None candidatos"
    and rel: "list_all2 (\<lambda>p c. visit_park ep dp ulat ulon (today + day_offset) ws maxd p = Inr (Some c))
                ?inr candidatos"
    by blast
  from rel have len: "length candidatos = length ?inr"
    by (simp add: list_all2_lengthD)
  have near: "\<exists>d. haversine_km ulat ulon (location_lat c) (location_lon c) = Inr d \<and> d \<le> maxd"
    if "c \<in> set candidatos" for c
  proof -
    from that obtain j where j: "j < length candidatos" and cj: "candidatos ! j = c"
      unfolding in_set_conv_nth by blast
    from list_all2_nthD2 [OF rel j] cj
    have v: "visit_park ep dp ulat ulon (today + day_offset) ws maxd (?inr ! j) = Inr (Some c)"
      by simp
    from visit_park_Some(1,3,4) [OF v] show ?thesis
      by (simp add: within_range_distance)
  qed
  have names: "map (\<lambda>c. (name c, location_lon c, location_lat c)) candidatos
               = map (\<lambda>p. (park_name p, coordinates p)) ?inr"
    using rel
  proof (rule list_all2_map_eq)
    fix p c
    assume v: "visit_park ep dp ulat ulon (today + day_offset) ws maxd p = Inr (Some c)"
    from visit_park_Some(2,3,4) [OF v]
    show "(name c, location_lon c, location_lat c) = (park_name p, coordinates p)"
      by (cases "coordinates p") simp
  qed
  have single: "\<exists>c. candidatos = [c] \<and> mejor = Some c" if "length ?inr = 1"
  proof -
    from that len have "length candidatos = 1" by simp
    then obtain c where "candidatos = [c]"
      by (cases candidatos) auto
    with best show ?thesis by (simp add: update_mejor_def)
  qed
  have indep: "best_park_for_day wp ep' dp' parks today ulat ulon day_offset maxd
                 = Inr (mejor, candidatos)"
    if agree: "\<forall>p\<in>set parks. within_range ulat ulon maxd p \<longrightarrow>
                 ep' (snd (coordinates p)) (fst (coordinates p))
                   = ep (snd (coordinates p)) (fst (coordinates p))
                 \<and> dp' ulat ulon (snd (coordinates p)) (fst (coordinates p))
                   = dp ulat ulon (snd (coordinates p)) (fst (coordinates p))"
  proof -
    have "park_loop ep' dp' ulat ulon (today + day_offset) ws maxd parks None []
          = park_loop ep dp ulat ulon (today + day_offset) ws maxd parks None []"
    proof (rule park_loop_cong, rule ballI)
      fix p assume "p \<in> set parks"
      with agree show "visit_park ep' dp' ulat ulon (today + day_offset) ws maxd p
                       = visit_park ep dp ulat ulon (today + day_offset) ws maxd p"
        by (intro visit_park_providers_cong) blast
    qed
    with assms ws show ?thesis
      by (simp add: best_park_for_day_def Let_def)
  qed
  show ?thesis
    using near names len single indep by blast
qed

theorem far_parks_are_discarded_witness:
  "best_park_for_day mild_day elevation_at_greenwich no_route
     [park_at ''A'' 0 0, park_at ''B'' 180 0, park_at ''C'' (- 180) 0] 0 0 0 0 15
   = Inr (Some (make_candidato 0 0 0 (park_at ''A'' 0 0) 0 0 0 None (Some 667) ''moderado'' 10),
          [make_candidato 0 0 0 (park_at ''A'' 0 0) 0 0 0 None (Some 667) ''moderado'' 10])
   \<and> length (filter (within_range 0 0 15)
        [park_at ''A'' 0 0, park_at ''B'' 180 0, park_at ''C'' (- 180) 0]) = 1
   \<and> haversine_km 0 0
        (location_lat (make_candidato 0 0 0 (park_at ''A'' 0 0) 0 0 0 None (Some 667) ''moderado'' 10))
        (location_lon (make_candidato 0 0 0 (park_at ''A'' 0 0) 0 0 0 None (Some 667) ''moderado'' 10))
      = Inr 0
   \<and> best_park_for_day mild_day (\<lambda>lat lon. Inr [667]) no_route
        [park_at ''A'' 0 0, park_at ''B'' 180 0, park_at ''C'' (- 180) 0] 0 0 0 0 15
      = Inr (Some (make_candidato 0 0 0 (park_at ''A'' 0 0) 0 0 0 None (Some 667) ''moderado'' 10),
          [make_candidato 0 0 0 (park_at ''A'' 0 0) 0 0 0 None (Some 667) ''moderado'' 10])"
proof -
  let ?a = "make_candidato 0 0 0 (park_at ''A'' 0 0) 0 0 0 None (Some 667) ''moderado'' 10"
  let ?parks = "[park_at ''A'' 0 0, park_at ''B'' 180 0, park_at ''C'' (- 180) 0]"
  note t = far_parks_are_discarded [OF one_near_run, of "\<lambda>lat lon. Inr [667]" no_route]
  have agree: "\<forall>p\<in>set ?parks. within_range 0 0 15 p \<longrightarrow>
                 (\<lambda>lat lon. Inr [667]) (snd (coordinates p)) (fst (coordinates p))
                   = elevation_at_greenwich (snd (coordinates p)) (fst (coordinates p))
                 \<and> no_route 0 0 (snd (coordinates p)) (fst (coordinates p))
                   = no_route 0 0 (snd (coordinates p)) (fst (coordinates p))"
    using antipode_is_far
    by (simp add: within_range_def park_at_def haversine_km_same haversine_km_antipode
          haversine_km_antipode_west elevation_at_greenwich_def)
  from t agree
  have "best_park_for_day mild_day (\<lambda>lat lon. Inr [667]) no_route ?parks 0 0 0 0 15
        = Inr (Some ?a, [?a])"
    by blast
  moreover have "haversine_km 0 0 (location_lat ?a) (location_lon ?a) = Inr 0"
    by (simp add: make_candidato_def Let_def haversine_km_same)
  ultimately show ?thesis
    using one_near_run one_near_filter by simp
qed

text \<open>
  C7: the distance is symmetric in its two coordinates, and the distance of a coordinate
  to itself is 0.
\<close>

theorem haversine_symmetric_and_zero:
  "haversine_km lat1 lon1 lat2 lon2 = haversine_km lat2 lon2 lat1 lon1
   \<and> haversine_km lat1 lon1 lat1 lon1 = Inr 0"
  using haversine_a_sym [of lat1 lon1 lat2 lon2]
  by (simp add: haversine_km_same haversine_km_def)

text \<open>
  C8: the distance estimator is to raise no error for valid coordinates, a radicand
  pushed slightly outside [0, 1] by rounding being clamped into [0, 1] before the inverse
  sine. The function has no clamping step. For the nearly antipodal points
  (58.948339, -106.810859) and (-58.94834, 73.189141) the radicand computed in double
  precision is \<open>1 + 2\<^sup>-\<^sup>5\<^sup>1\<close>; at this radicand the last line of the function
  raises, the square root being above 1 and outside the domain of the inverse sine.
\<close>

theorem unclamped_radicand_raises:
  "math_sqrt (1 + 1 / 2 ^ 51) = Inr (sqrt (1 + 1 / 2 ^ 51))
   \<and> math_asin (sqrt (1 + 1 / 2 ^ 51)) = Inl ValueError
   \<and> haversine_return (1 + 1 / 2 ^ 51) = Inl ValueError"
  by (simp add: haversine_return_def math_sqrt_def math_asin_def)

text \<open>
  C9, as the specification states it: a failure of the elevation or of the directions
  service for one park degrades to the absent value and the run goes on. In the code the
  exception leaves \<^verbatim>\<open>best_park_for_day\<close>: with one park within range and a failing
  service there is no result at all.
\<close>

theorem provider_failure_counterexample:
  "within_range 0 0 15 (park_at ''A'' 0 0)
   \<and> best_park_for_day mild_day elevation_down no_route [park_at ''A'' 0 0] 0 0 0 0 15
     = Inl HTTPError
   \<and> best_park_for_day mild_day no_elevation route_down [park_at ''A'' 0 0] 0 0 0 0 15
     = Inl RequestException"
  by (simp add: park_at_user_within_range)
    (simp add: best_park_for_day_def mild_day_score visit_park_def park_at_def
      haversine_km_same get_elevation_def get_best_route_def elevation_down_def
      no_elevation_def route_down_def no_route_def)

text \<open>
  C9, amended: once the weather score is there, a ranking run is aborted by an exception
  exactly when the elevation or the route look-up raises for some park within the
  distance bound, and the look-ups raise whenever their service fails. Only an answer
  without results, or without routes, gives the absent value (None, with the category
  "desconocido" for the elevation). In a run that returns, the candidates are the parks
  within the distance bound, one for each and in catalog order.
\<close>

theorem provider_failure_aborts:
  assumes "get_weather_score_for_date wp ulat ulon (today + day_offset) = Inr ws"
  shows "(isl (best_park_for_day wp ep dp parks today ulat ulon day_offset maxd)
          \<longleftrightarrow> (\<exists>p\<in>set parks. within_range ulat ulon maxd p
                 \<and> (isl (get_elevation ep (snd (coordinates p)) (fst (coordinates p)))
                    \<or> isl (get_best_route dp ulat ulon (snd (coordinates p)) (fst (coordinates p))))))
         \<and> (isl (get_elevation ep lat lon) \<longleftrightarrow> isl (ep lat lon))
         \<and> (isl (dp a b lat lon) \<longrightarrow> isl (get_best_route dp a b lat lon))
         \<and> (ep lat lon = Inr [] \<longrightarrow> get_elevation ep lat lon = Inr (None, ''desconocido''))
         \<and> (dp a b lat lon = Inr [] \<longrightarrow> get_best_route dp a b lat lon = Inr None)
         \<and> (\<forall>mejor candidatos.
               best_park_for_day wp ep dp parks today ulat ulon day_offset maxd
                 = Inr (mejor, candidatos)
               \<longrightarrow> map name candidatos
                     = map park_name (filter (within_range ulat ulon maxd) parks))"
proof -
  have "best_park_for_day wp ep dp parks today ulat ulon day_offset maxd
        = park_loop ep dp ulat ulon (today + day_offset) ws maxd parks None []"
    using assms by (simp add: best_park_for_day_def Let_def)
  then have "isl (best_park_for_day wp ep dp parks today ulat ulon day_offset maxd)
          \<longleftrightarrow> (\<exists>p\<in>set parks. within_range ulat ulon maxd p
                 \<and> (isl (get_elevation ep (snd (coordinates p)) (fst (coordinates p)))
                    \<or> isl (get_best_route dp ulat ulon (snd (coordinates p)) (fst (coordinates p)))))"
    by (simp add: park_loop_isl visit_park_isl)
  moreover have "isl (get_elevation ep lat lon) \<longleftrightarrow> isl (ep lat lon)"
    by (simp add: get_elevation_def split: sum.splits list.splits)
  moreover have "isl (dp a b lat lon) \<longrightarrow> isl (get_best_route dp a b lat lon)"
    by (simp add: get_best_route_def split: sum.splits)
  moreover have "ep lat lon = Inr [] \<longrightarrow> get_elevation ep lat lon = Inr (None, ''desconocido'')"
    by (simp add: get_elevation_def)
  moreover have "dp a b lat lon = Inr [] \<longrightarrow> get_best_route dp a b lat lon = Inr None"
    by (simp add: get_best_route_def)
  moreover have "map name candidatos
                   = map park_name (filter (within_range ulat ulon maxd) parks)"
    if run: "best_park_for_day wp ep dp parks today ulat ulon day_offset maxd
               = Inr (mejor, candidatos)" for mejor candidatos
  proof -
    from best_park_for_day_Inr [OF run] assms
    have "list_all2 (\<lambda>p c. visit_park ep dp ulat ulon (today + day_offset) ws maxd p
                              = Inr (Some c))
            (filter (within_range ulat ulon maxd) parks) candidatos"
      by simp
    then show ?thesis
      by (rule list_all2_map_eq) (rule visit_park_Some(2))
  qed
  ultimately show ?thesis by blast
qed

theorem provider_failure_aborts_witness:
  "get_weather_score_for_date mild_day 0 0 (0 + 0) = Inr 10
   \<and> within_range 0 0 15 (park_at ''A'' 0 0)
   \<and> isl (get_elevation elevation_down 0 0)
   \<and> isl (best_park_for_day mild_day elevation_down no_route [park_at ''A'' 0 0] 0 0 0 0 15)
   \<and> no_elevation 0 0 = Inr []
   \<and> get_elevation no_elevation 0 0 = Inr (None, ''desconocido'')
   \<and> no_route 0 0 0 0 = Inr []
   \<and> get_best_route no_route 0 0 0 0 = Inr None
   \<and> map name
        [make_candidato 0 0 0 (park_at ''A'' 0 0) 0 0 0 None None ''desconocido'' 10,
         make_candidato 0 0 0 (park_at ''B'' 0 0) 0 0 0 None None ''desconocido'' 10]
     = map park_name (filter (within_range 0 0 15) [park_at ''A'' 0 0, park_at ''B'' 0 0])"
proof -
  have e: "isl (get_elevation elevation_down 0 0)"
    by (simp add: get_elevation_def elevation_down_def)
  have c: "coordinates (park_at ''A'' 0 0) = (0, 0)"
    by (simp add: park_at_def)
  from provider_failure_aborts [OF mild_day_score, where ep = elevation_down
      and dp = no_route and parks = "[park_at ''A'' 0 0]" and maxd = 15]
  have "isl (best_park_for_day mild_day elevation_down no_route [park_at ''A'' 0 0] 0 0 0 0 15)"
    using e c park_at_user_within_range by simp
  moreover from provider_failure_aborts [OF mild_day_score, where ep = no_elevation
      and dp = no_route and lat = 0 and lon = 0 and a = 0 and b = 0]
  have "get_elevation no_elevation 0 0 = Inr (None, ''desconocido'')"
    "get_best_route no_route 0 0 0 0 = Inr None"
    by (simp_all add: no_elevation_def no_route_def)
  moreover from provider_failure_aborts [OF mild_day_score, where ep = no_elevation
      and dp = no_route and parks = "[park_at ''A'' 0 0, park_at ''B'' 0 0]" and maxd = 15
      and today = 0 and day_offset = 0 and ulat = 0 and ulon = 0] tie_run
  have "map name
        [make_candidato 0 0 0 (park_at ''A'' 0 0) 0 0 0 None None ''desconocido'' 10,
         make_candidato 0 0 0 (park_at ''B'' 0 0) 0 0 0 None None ''desconocido'' 10]
     = map park_name (filter (within_range 0 0 15) [park_at ''A'' 0 0, park_at ''B'' 0 0])"
    by blast
  ultimately show ?thesis
    using e park_at_user_within_range mild_day_score [of 0 0 "0 + 0"]
    by (simp add: no_elevation_def no_route_def)
qed

text \<open>
  C10: a route of 0 seconds gives the duration 0.0 minutes, which is treated as an absent
  route: the candidate built from it is the candidate built from no route, its route
  minutes are None and nothing is subtracted from its score for the route; a ranking run
  is unchanged when every such answer of the directions service is replaced by no route.
\<close>

theorem zero_duration_is_absent:
  "get_best_route (\<lambda>a b c d. Inr ((0 # legs) # routes)) ulat ulon plat plon = Inr (Some 0)
   \<and> make_candidato td ulat ulon park lat lon dist_km (Some 0) elev elev_cat ws
     = make_candidato td ulat ulon park lat lon dist_km None elev elev_cat ws
   \<and> route_minutes (make_candidato td ulat ulon park lat lon dist_km (Some 0) elev elev_cat ws) = None
   \<and> final_score (make_candidato td ulat ulon park lat lon dist_km (Some 0) elev elev_cat ws)
     = py_round (real_of_int ws - dist_km) 2
   \<and> best_park_for_day wp ep (zero_as_no_route dp) parks today ulat ulon day_offset maxd
     = best_park_for_day wp ep dp parks today ulat ulon day_offset maxd"
proof -
  have "park_loop ep (zero_as_no_route dp) ulat ulon td ws maxd parks None []
        = park_loop ep dp ulat ulon td ws maxd parks None []" for td ws
    by (rule park_loop_cong) (simp add: visit_park_zero_as_no_route)
  then have "best_park_for_day wp ep (zero_as_no_route dp) parks today ulat ulon day_offset maxd
     = best_park_for_day wp ep dp parks today ulat ulon day_offset maxd"
    by (simp add: best_park_for_day_def Let_def split: sum.splits)
  then show ?thesis
    by (simp add: get_best_route_def make_candidato_def combined_score_def truthy_def Let_def)
qed

end
